theory Spec2Isabelle
  imports Main
begin

section \<open>Naive Bayes structure of pgmpy (pgmpy/models/NaiveBayesModel.py)\<close>

subsection \<open>Nodes as Python values\<close>

text \<open>
  The docstring of \<^verbatim>\<open>add_edge\<close> says that a node can be any hashable Python object.
  The code applies three Python operations to nodes whose result depends on the kind of
  value: truth testing (\<^verbatim>\<open>if self.parent_node and ...\<close>), iteration
  (\<^verbatim>\<open>set(start)\<close>, \<^verbatim>\<open>set(variable)\<close>, \<^verbatim>\<open>set(self.parent_node)\<close>) and
  \<^verbatim>\<open>isinstance(variables, str)\<close>. Nodes are therefore modelled as the hashable Python
  values that are used as node labels: strings, integers and tuples of such values.
\<close>

datatype node = StrNode string | IntNode int | TupNode "node list"

text \<open>
  The exceptions of the module. Both \<^verbatim>\<open>ValueError\<close>s of the source are kept apart by
  their message: \<open>StructureViolation\<close> is
  \<^verbatim>\<open>ValueError("Model can have only one parent node.")\<close>, \<open>DataSchemaError\<close> is
  \<^verbatim>\<open>ValueError("parent node: ... is not present in the given data")\<close>.
  \<open>TypeError\<close> is what Python raises when a value that is not iterable is iterated.
\<close>

datatype error = StructureViolation | DataSchemaError | TypeError

text \<open>Python's truth value of a node: empty strings, zero and the empty tuple are false.\<close>

fun truthy :: "node \<Rightarrow> bool" where
  "truthy (StrNode s) = (s \<noteq> [])"
| "truthy (IntNode i) = (i \<noteq> 0)"
| "truthy (TupNode ns) = (ns \<noteq> [])"

text \<open>
  Iterating a node, as \<^verbatim>\<open>set(x)\<close> and \<^verbatim>\<open>for v in x\<close> do: a string yields its
  characters as one-character strings, a tuple yields its elements, an integer raises
  \<^verbatim>\<open>TypeError\<close>.
\<close>

fun iter_node :: "node \<Rightarrow> error + node list" where
  "iter_node (StrNode s) = Inr (map (\<lambda>c. StrNode [c]) s)"
| "iter_node (IntNode i) = Inl TypeError"
| "iter_node (TupNode ns) = Inr ns"

text \<open>\<^verbatim>\<open>set(self.parent_node)\<close>, where the attribute may still be \<^verbatim>\<open>None\<close>.\<close>

fun iter_parent :: "node option \<Rightarrow> error + node list" where
  "iter_parent None = Inl TypeError"
| "iter_parent (Some p) = iter_node p"

fun isinstance_str :: "node \<Rightarrow> bool" where
  "isinstance_str (StrNode s) = True"
| "isinstance_str (IntNode i) = False"
| "isinstance_str (TupNode ns) = False"

subsection \<open>The model object\<close>

text \<open>
  The object holds the inherited graph store (\<open>nodes\<close>, \<open>edges\<close>) and the two attributes
  of the class. \<open>has_parent_node\<close> is \<^verbatim>\<open>hasattr(self, 'parent_node')\<close>: the attributes
  are assigned only after the inherited constructor has run. \<open>children_nodes\<close> is a Python
  list.
\<close>

record model =
  nodes :: "node list"
  edges :: "(node \<times> node) list"
  has_parent_node :: bool
  parent_node :: "node option"
  children_nodes :: "node list"

text \<open>
  Modelled from the spec: the inherited graph store (\<^verbatim>\<open>DirectedGraph\<close>,
  \<^verbatim>\<open>BayesianModel\<close>) is not part of the source file. The spec gives its contract:
  \<^verbatim>\<open>add_node\<close>, \<^verbatim>\<open>add_edge\<close>, \<^verbatim>\<open>nodes()\<close>, \<^verbatim>\<open>edges()\<close> with idempotent semantics, and
  \<^verbatim>\<open>add_edge\<close> creates \<open>u\<close> and \<open>v\<close> as nodes if they are absent. Nodes and edges are
  listed in the order of their first insertion.
\<close>

definition store_add_node :: "node \<Rightarrow> ('a model_scheme) \<Rightarrow> ('a model_scheme)" where
  "store_add_node n m = (if n \<in> set (nodes m) then m else m\<lparr>nodes := nodes m @ [n]\<rparr>)"

definition store_add_edge :: "node \<Rightarrow> node \<Rightarrow> model \<Rightarrow> model" where
  "store_add_edge u v m =
     (let m' = store_add_node v (store_add_node u m)
      in if (u, v) \<in> set (edges m') then m' else m'\<lparr>edges := edges m' @ [(u, v)]\<rparr>)"

text \<open>The object before any attribute is assigned and before any edge is inserted.\<close>

definition blank :: model where
  "blank = \<lparr>nodes = [], edges = [], has_parent_node = False, parent_node = None,
            children_nodes = []\<rparr>"

subsection \<open>Structure guard\<close>

text \<open>
  The test \<^verbatim>\<open>self.parent_node and u != self.parent_node\<close> of lines 82 and 111: the
  attribute is tested for truth, so \<^verbatim>\<open>None\<close> and every false node pass.
\<close>

fun other_parent :: "node option \<Rightarrow> node \<Rightarrow> bool" where
  "other_parent None u = False"
| "other_parent (Some p) u = (truthy p \<and> u \<noteq> p)"

text \<open>
  \<^verbatim>\<open>add_edge(u, v)\<close> (lines 110 to 115). The result is the exception raised, if any,
  and the object after the call. Line 115, the inherited \<^verbatim>\<open>add_edge\<close>, is the insertion
  into the store, which by the spec's contract does not fail. The inherited method of
  the repository refuses a self-loop, after lines 113 and 114 have written the two
  attributes; the properties of the state after \<^verbatim>\<open>add_edge(u, v)\<close> are therefore stated
  for \<open>v \<noteq> u\<close>.
\<close>

definition add_edge :: "model \<Rightarrow> node \<Rightarrow> node \<Rightarrow> error option \<times> model" where
  "add_edge m u v =
     (if has_parent_node m then
        (if other_parent (parent_node m) u then (Some StructureViolation, m)
         else (None, store_add_edge u v
                 (m\<lparr>parent_node := Some u, children_nodes := children_nodes m @ [v]\<rparr>)))
      else (None, store_add_edge u v m))"

text \<open>
  Modelled from the spec: the inherited \<^verbatim>\<open>add_edges_from\<close>, which the inherited
  constructor runs on \<^verbatim>\<open>ebunch\<close>, inserts the edges one by one through
  \<^verbatim>\<open>self.add_edge\<close>.
\<close>

fun add_edges_from :: "model \<Rightarrow> (node \<times> node) list \<Rightarrow> error option \<times> model" where
  "add_edges_from m [] = (None, m)"
| "add_edges_from m ((u, v) # es) =
     (case add_edge m u v of
        (Some e, m') \<Rightarrow> (Some e, m')
      | (None, m') \<Rightarrow> add_edges_from m' es)"

text \<open>The loop of lines 81 to 84 over \<^verbatim>\<open>self.edges()\<close>, from the current parent.\<close>

fun find_parent :: "node option \<Rightarrow> (node \<times> node) list \<Rightarrow> error + node option" where
  "find_parent par [] = Inr par"
| "find_parent par ((parent, child) # es) =
     (if other_parent par parent then Inl StructureViolation
      else find_parent (Some parent) es)"

text \<open>
  The constructor (lines 76 to 86); \<open>None\<close> is \<^verbatim>\<open>ebunch=None\<close>. An exception leaves no
  object. \<^verbatim>\<open>list(set(self.nodes()) - set(self.parent_node))\<close> keeps the nodes that are
  not among the elements obtained by iterating the parent.
\<close>

definition init :: "(node \<times> node) list option \<Rightarrow> error + model" where
  "init ebunch =
     (let es = (case ebunch of None \<Rightarrow> [] | Some l \<Rightarrow> l) in
      case add_edges_from blank es of
        (Some e, g) \<Rightarrow> Inl e
      | (None, g) \<Rightarrow>
          (let m = g\<lparr>has_parent_node := True, parent_node := None, children_nodes := []\<rparr> in
           if es \<noteq> [] then
             (case find_parent None (edges m) of
                Inl e \<Rightarrow> Inl e
              | Inr par \<Rightarrow>
                  (case iter_parent par of
                     Inl e \<Rightarrow> Inl e
                   | Inr cs \<Rightarrow>
                       Inr (m\<lparr>parent_node := par,
                              children_nodes := filter (\<lambda>n. n \<notin> set cs) (nodes m)\<rparr>)))
           else Inr m))"

text \<open>The object made by \<^verbatim>\<open>NaiveBayesModel()\<close>.\<close>

definition empty_model :: model where
  "empty_model = \<lparr>nodes = [], edges = [], has_parent_node = True, parent_node = None,
                  children_nodes = []\<rparr>"

subsection \<open>Reachability\<close>

text \<open>
  \<^verbatim>\<open>active_trail_nodes(start, observed=None)\<close> (lines 158 to 161); \<open>observed\<close> is
  \<^verbatim>\<open>None\<close> or a list of nodes.
\<close>

fun parent_in :: "node option \<Rightarrow> node list \<Rightarrow> bool" where
  "parent_in None obs = False"
| "parent_in (Some p) obs = (p \<in> set obs)"

fun observed_or_empty :: "node list option \<Rightarrow> node list" where
  "observed_or_empty None = []"
| "observed_or_empty (Some obs) = obs"

definition active_trail_nodes :: "model \<Rightarrow> node \<Rightarrow> node list option \<Rightarrow> error + node set" where
  "active_trail_nodes m start observed =
     (if observed_or_empty observed \<noteq> [] \<and> parent_in (parent_node m) (observed_or_empty observed)
      then (case iter_node start of Inl e \<Rightarrow> Inl e | Inr cs \<Rightarrow> Inr (set cs))
      else Inr (set (nodes m) - set (observed_or_empty observed)))"

subsection \<open>Local independencies\<close>

text \<open>
  The value \<^verbatim>\<open>Independencies([variable, others, parent_node])\<close>: the external
  representation is opaque, so the three arguments are kept. \<open>others\<close> is made from a
  Python set and is kept as a set.
\<close>

datatype independencies = Independencies node "node set" "node option"

text \<open>The loop of lines 185 to 190 over the normalised sequence.\<close>

fun independencies_loop :: "model \<Rightarrow> node list \<Rightarrow> error + independencies option list" where
  "independencies_loop m [] = Inr []"
| "independencies_loop m (variable # vs) =
     (if Some variable \<noteq> parent_node m then
        (case iter_node variable of
           Inl e \<Rightarrow> Inl e
         | Inr cs \<Rightarrow>
             (case independencies_loop m vs of
                Inl e \<Rightarrow> Inl e
              | Inr r \<Rightarrow>
                  Inr (Some (Independencies variable (set (children_nodes m) - set cs)
                               (parent_node m)) # r)))
      else
        (case independencies_loop m vs of
           Inl e \<Rightarrow> Inl e
         | Inr r \<Rightarrow> Inr (None # r)))"

text \<open>
  The argument of \<^verbatim>\<open>local_independencies\<close> is one node or a Python list of nodes.
\<close>

datatype variables = One node | Many "node list"

fun local_independencies :: "model \<Rightarrow> variables \<Rightarrow> error + independencies option list" where
  "local_independencies m (Many vs) = independencies_loop m vs"
| "local_independencies m (One x) =
     (if isinstance_str x then independencies_loop m [x]
      else (case iter_node x of
              Inl e \<Rightarrow> Inl e
            | Inr vs \<Rightarrow> independencies_loop m vs))"

subsection \<open>Fit\<close>

text \<open>
  The dataset is represented by \<^verbatim>\<open>data.columns\<close>, the list of its column names. The
  inherited \<^verbatim>\<open>fit\<close> (the external estimator) is not modelled: \<open>Estimator cols\<close> records
  that line 233 is reached and the estimator is called on the object, as returned, with
  the dataset.
\<close>

datatype outcome = Raises error | Estimator "node list"

text \<open>The loop of lines 230 to 232.\<close>

fun add_children :: "model \<Rightarrow> node \<Rightarrow> node list \<Rightarrow> error option \<times> model" where
  "add_children m p [] = (None, m)"
| "add_children m p (child_node # cs) =
     (if child_node \<noteq> p then
        (case add_edge m p child_node of
           (Some e, m') \<Rightarrow> (Some e, m')
         | (None, m') \<Rightarrow> add_children m' p cs)
      else add_children m p cs)"

definition fit :: "model \<Rightarrow> node list \<Rightarrow> node \<Rightarrow> outcome \<times> model" where
  "fit m columns p =
     (if p \<notin> set columns then (Raises DataSchemaError, m)
      else (case add_children m p columns of
              (Some e, m') \<Rightarrow> (Raises e, m')
            | (None, m') \<Rightarrow> (Estimator columns, m')))"

subsection \<open>The star invariant\<close>

text \<open>
  The invariant of the data model: every edge of the store starts at \<open>parent_node\<close>, and
  the entries of \<open>children_nodes\<close> are exactly the targets of the edges.
\<close>

definition star_shape :: "model \<Rightarrow> bool" where
  "star_shape m =
     ((\<forall>e \<in> set (edges m). parent_node m = Some (fst e))
      \<and> set (children_nodes m) = snd ` set (edges m))"

text \<open>The parent attribute is \<^verbatim>\<open>None\<close> or a node that Python treats as true.\<close>

fun unset_or_truthy :: "node option \<Rightarrow> bool" where
  "unset_or_truthy None = True"
| "unset_or_truthy (Some p) = truthy p"

definition well_formed :: "model \<Rightarrow> bool" where
  "well_formed m =
     (has_parent_node m \<and> unset_or_truthy (parent_node m) \<and> star_shape m)"

text \<open>Strings of one character, the node names of every example in the docstrings.\<close>

fun one_char :: "node \<Rightarrow> bool" where
  "one_char (StrNode s) = (length s = 1)"
| "one_char (IntNode i) = False"
| "one_char (TupNode ns) = False"

section \<open>Properties of the graph store and of the guard\<close>

lemmas eval_defs = add_edge_def store_add_edge_def store_add_node_def empty_model_def Let_def

lemma store_add_node_fields [simp]:
  "edges (store_add_node n m) = edges m"
  "has_parent_node (store_add_node n m) = has_parent_node m"
  "parent_node (store_add_node n m) = parent_node m"
  "children_nodes (store_add_node n m) = children_nodes m"
  "set (nodes (store_add_node n m)) = insert n (set (nodes m))"
  by (auto simp: store_add_node_def)

lemma store_add_edge_fields [simp]:
  "has_parent_node (store_add_edge u v m) = has_parent_node m"
  "parent_node (store_add_edge u v m) = parent_node m"
  "children_nodes (store_add_edge u v m) = children_nodes m"
  "set (nodes (store_add_edge u v m)) = insert u (insert v (set (nodes m)))"
  "set (edges (store_add_edge u v m)) = insert (u, v) (set (edges m))"
  by (auto simp: store_add_edge_def Let_def)

lemma store_add_edge_distinct [simp]:
  "distinct (edges (store_add_edge u v m)) = distinct (edges m)"
  by (simp add: store_add_edge_def Let_def)

lemma add_edge_rejected:
  "has_parent_node m \<Longrightarrow> parent_node m = Some p \<Longrightarrow> truthy p \<Longrightarrow> q \<noteq> p \<Longrightarrow>
   add_edge m q r = (Some StructureViolation, m)"
  by (simp add: add_edge_def)

lemma add_edge_accepted:
  "has_parent_node m \<Longrightarrow> parent_node m = None \<or> parent_node m = Some u \<Longrightarrow>
   add_edge m u v =
     (None, store_add_edge u v
              (m\<lparr>parent_node := Some u, children_nodes := children_nodes m @ [v]\<rparr>))"
  by (auto simp add: add_edge_def)

lemma add_edge_has_parent_node [simp]:
  "has_parent_node (snd (add_edge m u v)) = has_parent_node m"
  by (simp add: add_edge_def)

lemma add_edge_star_shape:
  assumes "has_parent_node m" "unset_or_truthy (parent_node m)" "star_shape m"
  shows "star_shape (snd (add_edge m u v))"
proof (cases "other_parent (parent_node m) u")
  case True
  then show ?thesis using assms by (simp add: add_edge_def)
next
  case False
  have "\<forall>e \<in> set (edges m). fst e = u"
  proof
    fix e assume "e \<in> set (edges m)"
    then have "parent_node m = Some (fst e)" using assms(3) by (simp add: star_shape_def)
    then show "fst e = u" using False assms(2) by auto
  qed
  then show ?thesis using assms False
    by (auto simp: add_edge_def star_shape_def)
qed

lemma add_edge_keeps_parent:
  assumes "has_parent_node m" "parent_node m = Some p" "truthy p"
  shows "parent_node (snd (add_edge m u v)) = Some p"
  using assms by (auto simp: add_edge_def)

lemma add_edge_parent_truthy:
  assumes "has_parent_node m" "unset_or_truthy (parent_node m)" "truthy u"
  shows "unset_or_truthy (parent_node (snd (add_edge m u v)))"
  using assms by (auto simp: add_edge_def)

section \<open>Properties of the loop of fit\<close>

lemma add_children_invariant:
  assumes "has_parent_node m" "unset_or_truthy (parent_node m)" "star_shape m" "truthy p"
  shows "has_parent_node (snd (add_children m p cs))
         \<and> unset_or_truthy (parent_node (snd (add_children m p cs)))
         \<and> star_shape (snd (add_children m p cs))"
  using assms
proof (induction cs arbitrary: m)
  case Nil
  then show ?case by simp
next
  case (Cons c cs)
  show ?case
  proof (cases "c = p")
    case True
    then show ?thesis using Cons by simp
  next
    case False
    obtain r m' where r: "add_edge m p c = (r, m')" by (cases "add_edge m p c")
    have m': "m' = snd (add_edge m p c)" using r by simp
    have inv': "has_parent_node m'" "unset_or_truthy (parent_node m')" "star_shape m'"
      unfolding m'
      using Cons.prems add_edge_star_shape add_edge_parent_truthy by simp_all
    show ?thesis
    proof (cases r)
      case None
      then show ?thesis using False r Cons.IH [OF inv' Cons.prems(4)] by simp
    next
      case (Some e)
      then show ?thesis using False r inv' by simp
    qed
  qed
qed

lemma add_children_keeps_parent:
  assumes "has_parent_node m" "parent_node m = Some q" "truthy q"
  shows "parent_node (snd (add_children m p cs)) = Some q"
  using assms
proof (induction cs arbitrary: m)
  case Nil
  then show ?case by simp
next
  case (Cons c cs)
  show ?case
  proof (cases "c = p")
    case True
    then show ?thesis using Cons by simp
  next
    case False
    obtain r m' where r: "add_edge m p c = (r, m')" by (cases "add_edge m p c")
    have m': "m' = snd (add_edge m p c)" using r by simp
    have inv': "has_parent_node m'" "parent_node m' = Some q"
      unfolding m' using Cons.prems add_edge_keeps_parent by simp_all
    show ?thesis
    proof (cases r)
      case None
      then show ?thesis using False r Cons.IH [OF inv' Cons.prems(3)] by simp
    next
      case (Some e)
      then show ?thesis using False r inv' by simp
    qed
  qed
qed

lemma add_children_completes:
  assumes "has_parent_node m" "parent_node m = None \<or> parent_node m = Some p"
  shows "fst (add_children m p cs) = None
         \<and> set (edges (snd (add_children m p cs)))
             = set (edges m) \<union> {(p, c) |c. c \<in> set cs \<and> c \<noteq> p}
         \<and> set (children_nodes (snd (add_children m p cs)))
             = set (children_nodes m) \<union> {c \<in> set cs. c \<noteq> p}
         \<and> distinct (edges (snd (add_children m p cs))) = distinct (edges m)"
  using assms
proof (induction cs arbitrary: m)
  case Nil
  then show ?case by simp
next
  case (Cons c cs)
  show ?case
  proof (cases "c = p")
    case True
    then show ?thesis using Cons by auto
  next
    case False
    let ?m' = "store_add_edge p c
                 (m\<lparr>parent_node := Some p, children_nodes := children_nodes m @ [c]\<rparr>)"
    have step: "add_edge m p c = (None, ?m')"
      using Cons.prems by (rule add_edge_accepted)
    have "has_parent_node ?m'" "parent_node ?m' = None \<or> parent_node ?m' = Some p"
      using Cons.prems by simp_all
    from Cons.IH [OF this] show ?thesis
      using False step by auto
  qed
qed

lemma add_children_rejected:
  assumes "has_parent_node m" "parent_node m = Some q" "truthy q" "q \<noteq> p"
    and "c \<in> set cs" "c \<noteq> p"
  shows "add_children m p cs = (Some StructureViolation, m)"
  using assms(5,6)
proof (induction cs)
  case Nil
  then show ?case by simp
next
  case (Cons x xs)
  have rej: "\<And>r. add_edge m p r = (Some StructureViolation, m)"
    using assms(1-4) add_edge_rejected by metis
  show ?case
  proof (cases "x = p")
    case True
    then show ?thesis using Cons by auto
  next
    case False
    then show ?thesis by (simp add: rej)
  qed
qed

lemma fit_outcome_and_state:
  "p \<in> set columns \<Longrightarrow>
   fit m columns p =
     ((case fst (add_children m p columns) of None \<Rightarrow> Estimator columns | Some e \<Rightarrow> Raises e),
      snd (add_children m p columns))"
  by (simp add: fit_def split: prod.splits option.splits)

section \<open>Properties of the constructor\<close>

lemma add_edges_from_no_attribute:
  assumes "\<not> has_parent_node m"
  shows "fst (add_edges_from m es) = None
         \<and> \<not> has_parent_node (snd (add_edges_from m es))
         \<and> set (edges (snd (add_edges_from m es))) = set (edges m) \<union> set es
         \<and> set (nodes (snd (add_edges_from m es)))
             = set (nodes m) \<union> fst ` set es \<union> snd ` set es"
  using assms
proof (induction es arbitrary: m)
  case Nil
  then show ?case by simp
next
  case (Cons e es)
  obtain u v where e: "e = (u, v)" by (cases e)
  have step: "add_edge m u v = (None, store_add_edge u v m)"
    using Cons.prems by (simp add: add_edge_def)
  have "\<not> has_parent_node (store_add_edge u v m)"
    using Cons.prems by simp
  from Cons.IH [OF this] show ?case
    using e step by auto
qed

lemma find_parent_from_truthy:
  assumes "truthy q" "find_parent (Some q) es = Inr r"
  shows "r = Some q \<and> (\<forall>e \<in> set es. fst e = q)"
  using assms
proof (induction es)
  case Nil
  then show ?case by simp
next
  case (Cons e es)
  obtain s t where e: "e = (s, t)" by (cases e)
  have "s = q" using Cons.prems e by (auto split: if_splits)
  then show ?case using Cons e by (auto split: if_splits)
qed

lemma find_parent_common_source:
  assumes "\<forall>e \<in> set es. truthy (fst e)" "find_parent None es = Inr r" "es \<noteq> []"
  shows "\<exists>p. r = Some p \<and> truthy p \<and> (\<forall>e \<in> set es. fst e = p)"
proof -
  obtain s t es' where es: "es = (s, t) # es'"
    using assms(3) by (cases es) auto
  have "truthy s" using assms(1) es by simp
  moreover have "find_parent (Some s) es' = Inr r" using assms(2) es by simp
  ultimately have "r = Some s \<and> (\<forall>e \<in> set es'. fst e = s)"
    by (rule find_parent_from_truthy)
  then show ?thesis using es \<open>truthy s\<close> by auto
qed

lemma one_char_iter: "one_char p \<Longrightarrow> iter_node p = Inr [p] \<and> truthy p"
  by (cases p) (auto simp: length_Suc_conv)

lemma init_empty: "init None = Inr empty_model" "init (Some []) = Inr empty_model"
  by (simp_all add: init_def blank_def empty_model_def)

lemma well_formed_empty: "well_formed empty_model"
  by (simp add: well_formed_def star_shape_def empty_model_def)

lemma init_well_formed:
  assumes "\<forall>e \<in> set es. one_char (fst e) \<and> fst e \<noteq> snd e" "init (Some es) = Inr m"
  shows "well_formed m \<and> (\<forall>e \<in> set es. parent_node m = Some (fst e))"
proof (cases "es = []")
  case True
  then show ?thesis using assms(2) well_formed_empty by (simp add: init_empty)
next
  case False
  define g where "g = snd (add_edges_from blank es)"
  have nb: "\<not> has_parent_node blank" by (simp add: blank_def)
  have g: "add_edges_from blank es = (None, g)"
    and ge: "set (edges g) = set es"
    and gn: "set (nodes g) = fst ` set es \<union> snd ` set es"
    using add_edges_from_no_attribute [OF nb, of es] unfolding g_def
    by (auto simp: blank_def prod_eq_iff)
  have ne: "edges g \<noteq> []" using ge False by auto
  have tr: "\<forall>e \<in> set (edges g). truthy (fst e)"
    using assms(1) ge one_char_iter by auto
  obtain par where par: "find_parent None (edges g) = Inr par"
    using assms(2) g False by (auto simp: init_def Let_def split: sum.splits)
  obtain p where p: "par = Some p" "truthy p" "\<forall>e \<in> set es. fst e = p"
    using find_parent_common_source [OF tr par ne] ge by auto
  have "one_char p" using p(3) assms(1) False by (cases es) auto
  then have it: "iter_node p = Inr [p]" using one_char_iter by simp
  have m: "m = g\<lparr>has_parent_node := True, parent_node := Some p,
                 children_nodes := filter (\<lambda>n. n \<notin> set [p]) (nodes g)\<rparr>"
    using assms(2) g False par p(1) it by (simp add: init_def Let_def)
  have "set (children_nodes m) = snd ` set (edges m)"
    using m ge gn p(3) assms(1) by (auto simp: image_iff)
  then show ?thesis using m ge p by (auto simp: well_formed_def star_shape_def)
qed

text \<open>
  With sources that Python treats as true, an edge list with two different sources is
  rejected.
\<close>

lemma find_parent_error:
  "find_parent par es = Inl e \<Longrightarrow> e = StructureViolation"
  by (induction par es rule: find_parent.induct) (auto split: if_splits)

lemma find_parent_two_sources:
  assumes "\<forall>e \<in> set es. truthy (fst e)" "(u, v) \<in> set es" "(u', v') \<in> set es" "u \<noteq> u'"
  shows "find_parent None es = Inl StructureViolation"
proof (cases "find_parent None es")
  case (Inl e)
  then show ?thesis using find_parent_error by simp
next
  case (Inr r)
  have "es \<noteq> []" using assms(2) by auto
  from find_parent_common_source [OF assms(1) Inr this]
  obtain p where "\<forall>e \<in> set es. fst e = p" by auto
  then have "u = p" "u' = p" using assms(2,3) by auto
  then show ?thesis using assms(4) by simp
qed

lemma init_two_sources:
  assumes "\<forall>e \<in> set es. truthy (fst e)" "(u, v) \<in> set es" "(u', v') \<in> set es" "u \<noteq> u'"
  shows "init (Some es) = Inl StructureViolation"
proof -
  define g where "g = snd (add_edges_from blank es)"
  have nb: "\<not> has_parent_node blank" by (simp add: blank_def)
  have g: "add_edges_from blank es = (None, g)"
    and ge: "set (edges g) = set es"
    using add_edges_from_no_attribute [OF nb, of es] unfolding g_def
    by (auto simp: blank_def prod_eq_iff)
  have "find_parent None (edges g) = Inl StructureViolation"
    using find_parent_two_sources [of "edges g" u v u' v'] assms ge by simp
  moreover have "es \<noteq> []" using assms(2) by auto
  ultimately show ?thesis using g by (simp add: init_def Let_def)
qed

section \<open>Queries on one-character names\<close>

text \<open>
  For a node that is a string of one character, iterating the node yields the node
  itself, so \<^verbatim>\<open>set(x)\<close> is the singleton of \<open>x\<close>.
\<close>

lemma active_trail_one_char_start:
  assumes "parent_node m = Some p" "p \<in> set obs" "one_char start"
  shows "active_trail_nodes m start (Some obs) = Inr {start}"
proof -
  have "obs \<noteq> []" using assms(2) by auto
  then show ?thesis
    using assms one_char_iter [of start] by (simp add: active_trail_nodes_def)
qed

lemma active_trail_observed_start_excluded:
  assumes "\<not> parent_in (parent_node m) obs" "start \<in> set obs"
    and "active_trail_nodes m start (Some obs) = Inr r"
  shows "start \<notin> r"
  using assms by (auto simp: active_trail_nodes_def)

lemma independencies_loop_one_char:
  assumes "\<forall>v \<in> set vs. one_char v"
  shows "independencies_loop m vs =
           Inr (map (\<lambda>v. if Some v = parent_node m then None
                          else Some (Independencies v (set (children_nodes m) - {v})
                                       (parent_node m))) vs)"
  using assms
proof (induction vs)
  case Nil
  then show ?case by simp
next
  case (Cons v vs)
  have "iter_node v = Inr [v]" using Cons.prems one_char_iter by simp
  then show ?case using Cons by simp
qed

lemma independencies_loop_length:
  "independencies_loop m vs = Inr r \<Longrightarrow> length r = length vs"
  by (induction vs arbitrary: r) (auto split: if_splits sum.splits)

section \<open>The claims\<close>

subsection \<open>C1: the invariant after every mutation\<close>

text \<open>
  Claim C1 says that after every mutation every edge starts at \<open>parent_node\<close>, that
  \<open>children_nodes\<close> is the set of distinct edge targets without a repeated entry when an
  edge is added again, and that a parent that is set never changes. \<open>children_nodes\<close> is
  a Python list and \<^verbatim>\<open>add_edge\<close> appends to it on every accepted call: adding the edge
  \<^verbatim>\<open>('a', 'b')\<close> twice succeeds, keeps one edge in the store and leaves the entry
  \<^verbatim>\<open>'b'\<close> twice in \<open>children_nodes\<close>.
\<close>

theorem add_edge_repeats_child_entry:
  "fst (add_edge (snd (add_edge empty_model (StrNode ''a'') (StrNode ''b'')))
          (StrNode ''a'') (StrNode ''b'')) = None
   \<and> children_nodes (snd (add_edge (snd (add_edge empty_model (StrNode ''a'') (StrNode ''b'')))
          (StrNode ''a'') (StrNode ''b''))) = [StrNode ''b'', StrNode ''b'']
   \<and> edges (snd (add_edge (snd (add_edge empty_model (StrNode ''a'') (StrNode ''b'')))
          (StrNode ''a'') (StrNode ''b''))) = [(StrNode ''a'', StrNode ''b'')]"
  by (simp add: eval_defs)

text \<open>
  Claim C1, amended. A structure is well formed when its attributes exist, its parent is
  unset or a node that Python treats as true, every edge starts at the parent and the
  entries of \<open>children_nodes\<close>, taken as a set, are the edge targets. Then
  \<^item> \<^verbatim>\<open>add_edge(u, v)\<close> with a true node \<open>u\<close> and \<open>v\<close> different from \<open>u\<close> leaves a
    well formed structure well formed;
  \<^item> \<^verbatim>\<open>fit(data, u)\<close> with a true node \<open>u\<close> leaves a well formed structure well
    formed (it adds edges only to columns other than \<open>u\<close>);
  \<^item> a parent that is set in a well formed structure is the parent after
    \<^verbatim>\<open>add_edge(u, v)\<close> with \<open>v\<close> different from \<open>u\<close>, and after \<^verbatim>\<open>fit\<close>;
  \<^item> a successful construction from an edge list whose sources are one-character
    strings and whose edges are not self-loops yields a well formed structure whose
    parent is the source of every edge of the list;
  \<^item> the construction without edges yields the empty structure, which is well formed.
\<close>

theorem star_shape_maintained:
  "(well_formed m \<and> truthy u \<and> v \<noteq> u \<longrightarrow> well_formed (snd (add_edge m u v)))
   \<and> (well_formed m \<and> truthy u \<longrightarrow> well_formed (snd (fit m columns u)))
   \<and> (well_formed m \<and> parent_node m = Some p \<and> v \<noteq> u \<longrightarrow>
      parent_node (snd (add_edge m u v)) = Some p)
   \<and> (well_formed m \<and> parent_node m = Some p \<longrightarrow>
      parent_node (snd (fit m columns u)) = Some p)
   \<and> ((\<forall>e \<in> set es. one_char (fst e) \<and> fst e \<noteq> snd e) \<and> init (Some es) = Inr m0 \<longrightarrow>
      well_formed m0 \<and> (\<forall>e \<in> set es. parent_node m0 = Some (fst e)))
   \<and> init None = Inr empty_model \<and> well_formed empty_model"
proof -
  have fit_state:
    "snd (fit m columns u) = m \<or> snd (fit m columns u) = snd (add_children m u columns)"
    by (simp add: fit_def split: prod.splits option.splits)
  have a: "well_formed (snd (add_edge m u v))" if "well_formed m" "truthy u"
    using that add_edge_star_shape add_edge_parent_truthy by (simp add: well_formed_def)
  have b: "well_formed (snd (fit m columns u))" if "well_formed m" "truthy u"
    using that fit_state add_children_invariant [of m u columns]
    by (auto simp: well_formed_def)
  have c: "parent_node (snd (add_edge m u v)) = Some p"
    if "well_formed m" "parent_node m = Some p"
    using that add_edge_keeps_parent [of m p u v] by (simp add: well_formed_def)
  have d: "parent_node (snd (fit m columns u)) = Some p"
    if "well_formed m" "parent_node m = Some p"
    using that fit_state add_children_keeps_parent [of m p u columns]
    by (auto simp: well_formed_def)
  show ?thesis
    using a b c d init_well_formed [of es m0] init_empty(1) well_formed_empty by blast
qed

text \<open>
  The amended claim at the structure with the edge \<^verbatim>\<open>('a', 'b')\<close>, the calls
  \<^verbatim>\<open>add_edge('a', 'c')\<close> and \<^verbatim>\<open>fit\<close> with the columns \<^verbatim>\<open>a, d\<close>, and the edge list
  \<^verbatim>\<open>[('a', 'b'), ('a', 'c')]\<close>, whose construction succeeds with the parent \<^verbatim>\<open>'a'\<close> and
  the children \<^verbatim>\<open>'b'\<close> and \<^verbatim>\<open>'c'\<close> in some order.
\<close>

theorem star_shape_maintained_witness:
  "well_formed (snd (add_edge empty_model (StrNode ''a'') (StrNode ''b'')))
   \<and> truthy (StrNode ''a'')
   \<and> StrNode ''c'' \<noteq> StrNode ''a''
   \<and> parent_node (snd (add_edge empty_model (StrNode ''a'') (StrNode ''b''))) = Some (StrNode ''a'')
   \<and> one_char (StrNode ''a'')
   \<and> StrNode ''a'' \<noteq> StrNode ''b''
   \<and> well_formed (snd (add_edge (snd (add_edge empty_model (StrNode ''a'') (StrNode ''b'')))
                         (StrNode ''a'') (StrNode ''c'')))
   \<and> well_formed (snd (fit (snd (add_edge empty_model (StrNode ''a'') (StrNode ''b'')))
                         [StrNode ''a'', StrNode ''d''] (StrNode ''a'')))
   \<and> parent_node (snd (add_edge (snd (add_edge empty_model (StrNode ''a'') (StrNode ''b'')))
                         (StrNode ''a'') (StrNode ''c''))) = Some (StrNode ''a'')
   \<and> parent_node (snd (fit (snd (add_edge empty_model (StrNode ''a'') (StrNode ''b'')))
                         [StrNode ''a'', StrNode ''d''] (StrNode ''a''))) = Some (StrNode ''a'')
   \<and> (\<exists>m0. init (Some [(StrNode ''a'', StrNode ''b''), (StrNode ''a'', StrNode ''c'')]) = Inr m0
          \<and> well_formed m0
          \<and> parent_node m0 = Some (StrNode ''a'')
          \<and> set (children_nodes m0) = {StrNode ''b'', StrNode ''c''}
          \<and> set (edges m0) = {(StrNode ''a'', StrNode ''b''), (StrNode ''a'', StrNode ''c'')})"
proof -
  let ?a = "StrNode ''a''" and ?b = "StrNode ''b''" and ?c = "StrNode ''c''"
  let ?m = "snd (add_edge empty_model ?a ?b)"
  let ?es = "[(?a, ?b), (?a, ?c)]"
  let ?built = "\<lparr>nodes = [?a, ?b, ?c], edges = ?es, has_parent_node = True,
              parent_node = Some ?a, children_nodes = [?b, ?c]\<rparr>"
  have h1: "well_formed ?m"
    by (simp add: eval_defs well_formed_def star_shape_def)
  have h2: "truthy ?a" "?c \<noteq> ?a" "one_char ?a" "?a \<noteq> ?b" by simp_all
  have h3: "parent_node ?m = Some ?a" by (simp add: eval_defs)
  have h4: "\<forall>e \<in> set ?es. one_char (fst e) \<and> fst e \<noteq> snd e" by simp
  have h5: "init (Some ?es) = Inr ?built"
    by (simp add: init_def blank_def eval_defs)
  have r: "well_formed (snd (add_edge ?m ?a ?c))"
    "well_formed (snd (fit ?m [?a, StrNode ''d''] ?a))"
    "parent_node (snd (add_edge ?m ?a ?c)) = Some ?a"
    "parent_node (snd (fit ?m [?a, StrNode ''d''] ?a)) = Some ?a"
    "well_formed ?built"
    using h1 h2 h3 h4 h5
      star_shape_maintained [of ?m ?a ?c "[?a, StrNode ''d'']" ?a ?es ?built]
    by blast+
  have built: "parent_node ?built = Some ?a"
    "set (children_nodes ?built) = {?b, ?c}"
    "set (edges ?built) = {(?a, ?b), (?a, ?c)}"
    by simp_all
  have "\<exists>m0. init (Some ?es) = Inr m0 \<and> well_formed m0 \<and> parent_node m0 = Some ?a
          \<and> set (children_nodes m0) = {?b, ?c} \<and> set (edges m0) = {(?a, ?b), (?a, ?c)}"
    using h5 r(5) built by blast
  then show ?thesis
    using h1 h2 h3 r(1-4) by blast
qed

subsection \<open>C2: an edge from another source\<close>

text \<open>
  Claim C2 says that \<^verbatim>\<open>add_edge(q, r)\<close> raises StructureViolation and changes nothing
  whenever the parent is set and \<open>q\<close> differs from it. The guard tests the parent for
  truth, not for being set. After \<^verbatim>\<open>add_edge(0, 1)\<close> on the empty structure the parent
  is the node \<^verbatim>\<open>0\<close>; the call \<^verbatim>\<open>add_edge(2, 3)\<close> is then accepted, replaces the parent by
  \<^verbatim>\<open>2\<close> and leaves edges from two sources in the store.
\<close>

theorem add_edge_after_false_parent:
  "parent_node (snd (add_edge empty_model (IntNode 0) (IntNode 1))) = Some (IntNode 0)
   \<and> IntNode 2 \<noteq> IntNode 0
   \<and> add_edge (snd (add_edge empty_model (IntNode 0) (IntNode 1))) (IntNode 2) (IntNode 3)
       = (None,
          \<lparr>nodes = [IntNode 0, IntNode 1, IntNode 2, IntNode 3],
           edges = [(IntNode 0, IntNode 1), (IntNode 2, IntNode 3)],
           has_parent_node = True, parent_node = Some (IntNode 2),
           children_nodes = [IntNode 1, IntNode 3]\<rparr>)"
  by (simp add: eval_defs)

subsection \<open>C3: construction from an edge list\<close>

text \<open>
  Claim C3 says that an edge list with the common source \<open>p\<close> and the targets
  \<open>c1..cn\<close> yields the parent \<open>p\<close> and the children \<open>c1..cn\<close>. The constructor subtracts
  \<^verbatim>\<open>set(self.parent_node)\<close>, the elements obtained by iterating the parent, not the
  parent itself. From \<^verbatim>\<open>[('ab', 'c')]\<close> the children are \<^verbatim>\<open>'ab'\<close> and \<^verbatim>\<open>'c'\<close>: the
  parent is listed among its children. From \<^verbatim>\<open>[(1, 2)]\<close> the construction raises
  \<^verbatim>\<open>TypeError\<close>.
\<close>

theorem init_iterates_parent:
  "init (Some [(StrNode ''ab'', StrNode ''c'')])
     = Inr \<lparr>nodes = [StrNode ''ab'', StrNode ''c''], edges = [(StrNode ''ab'', StrNode ''c'')],
            has_parent_node = True, parent_node = Some (StrNode ''ab''),
            children_nodes = [StrNode ''ab'', StrNode ''c'']\<rparr>
   \<and> init (Some [(IntNode 1, IntNode 2)]) = Inl TypeError"
  by (simp add: init_def blank_def eval_defs)

subsection \<open>C4: active trail when the parent is observed\<close>

text \<open>
  Claim C4 says that \<^verbatim>\<open>active_trail_nodes(start, observed)\<close> is the singleton of
  \<open>start\<close> when the parent is observed. The code returns \<^verbatim>\<open>set(start)\<close>. In the structure
  with the edge \<^verbatim>\<open>('a', 'bc')\<close>, the start \<^verbatim>\<open>'bc'\<close> and the parent \<^verbatim>\<open>'a'\<close> observed, the
  result is the set of \<^verbatim>\<open>'b'\<close> and \<^verbatim>\<open>'c'\<close>; with the edge \<^verbatim>\<open>(1, 2)\<close>, the start \<^verbatim>\<open>2\<close> and
  \<^verbatim>\<open>1\<close> observed, the call raises \<^verbatim>\<open>TypeError\<close>.
\<close>

theorem active_trail_iterates_start:
  "parent_node (snd (add_edge empty_model (StrNode ''a'') (StrNode ''bc''))) = Some (StrNode ''a'')
   \<and> active_trail_nodes (snd (add_edge empty_model (StrNode ''a'') (StrNode ''bc'')))
        (StrNode ''bc'') (Some [StrNode ''a''])
       = Inr {StrNode ''b'', StrNode ''c''}
   \<and> {StrNode ''b'', StrNode ''c''} \<noteq> {StrNode ''bc''}
   \<and> active_trail_nodes (snd (add_edge empty_model (IntNode 1) (IntNode 2)))
        (IntNode 2) (Some [IntNode 1])
       = Inl TypeError"
  by (simp add: active_trail_nodes_def eval_defs)

subsection \<open>C5: active trail when the parent is not observed\<close>

text \<open>
  Claim C5: when the observed nodes do not contain the parent, also when nothing is
  observed, \<^verbatim>\<open>active_trail_nodes\<close> returns all nodes of the structure minus the
  observed ones, whatever the start node is.
\<close>

theorem active_trail_parent_unobserved:
  assumes "\<forall>p. parent_node m = Some p \<longrightarrow> p \<notin> set obs"
  shows "active_trail_nodes m start (Some obs) = Inr (set (nodes m) - set obs)
         \<and> active_trail_nodes m start None = Inr (set (nodes m))
         \<and> active_trail_nodes m start (Some obs) = active_trail_nodes m start' (Some obs)"
proof -
  have "\<not> parent_in (parent_node m) obs"
    using assms by (cases "parent_node m") simp_all
  then show ?thesis
    by (simp add: active_trail_nodes_def)
qed

text \<open>
  Claim C5 in the structure with the edges \<^verbatim>\<open>('a', 'b')\<close> and \<^verbatim>\<open>('a', 'c')\<close>, from the
  start \<^verbatim>\<open>'b'\<close> with \<^verbatim>\<open>'c'\<close> observed.
\<close>

theorem active_trail_parent_unobserved_witness:
  "parent_node (snd (add_edge (snd (add_edge empty_model (StrNode ''a'') (StrNode ''b'')))
                       (StrNode ''a'') (StrNode ''c''))) = Some (StrNode ''a'')
   \<and> StrNode ''a'' \<notin> set [StrNode ''c'']
   \<and> active_trail_nodes (snd (add_edge (snd (add_edge empty_model (StrNode ''a'') (StrNode ''b'')))
                            (StrNode ''a'') (StrNode ''c'')))
        (StrNode ''b'') (Some [StrNode ''c''])
       = Inr {StrNode ''a'', StrNode ''b''}
   \<and> active_trail_nodes (snd (add_edge (snd (add_edge empty_model (StrNode ''a'') (StrNode ''b'')))
                            (StrNode ''a'') (StrNode ''c'')))
        (StrNode ''b'') None
       = Inr {StrNode ''a'', StrNode ''b'', StrNode ''c''}"
proof -
  let ?m = "snd (add_edge (snd (add_edge empty_model (StrNode ''a'') (StrNode ''b'')))
                  (StrNode ''a'') (StrNode ''c''))"
  have m: "?m = \<lparr>nodes = [StrNode ''a'', StrNode ''b'', StrNode ''c''],
                 edges = [(StrNode ''a'', StrNode ''b''), (StrNode ''a'', StrNode ''c'')],
                 has_parent_node = True, parent_node = Some (StrNode ''a''),
                 children_nodes = [StrNode ''b'', StrNode ''c'']\<rparr>"
    by (simp add: eval_defs)
  have h: "\<forall>p. parent_node ?m = Some p \<longrightarrow> p \<notin> set [StrNode ''c'']"
    by (simp add: m)
  have s1: "{StrNode ''a'', StrNode ''b'', StrNode ''c''} - set [StrNode ''c'']
            = {StrNode ''a'', StrNode ''b''}"
    by auto
  have s2: "set (nodes ?m) = {StrNode ''a'', StrNode ''b'', StrNode ''c''}"
    by (auto simp: m)
  have p: "parent_node ?m = Some (StrNode ''a'')" "StrNode ''a'' \<notin> set [StrNode ''c'']"
    by (simp_all add: m)
  show ?thesis
    using p active_trail_parent_unobserved [OF h, of "StrNode ''b''" "StrNode ''b''"]
    unfolding s2 s1 by blast
qed

subsection \<open>C6: local independencies\<close>

text \<open>
  Claim C6 says that the entry of a queried child asserts its independence of all
  other children given the parent. The code removes \<^verbatim>\<open>set(variable)\<close>, the elements
  obtained by iterating the child, from the children. In the structure with the edges
  \<^verbatim>\<open>('a', 'bc')\<close> and \<^verbatim>\<open>('a', 'd')\<close> the entry for \<^verbatim>\<open>'bc'\<close> asserts the independence of
  \<^verbatim>\<open>'bc'\<close> from \<^verbatim>\<open>'bc'\<close> and \<^verbatim>\<open>'d'\<close>; with the edges \<^verbatim>\<open>(1, 2)\<close> and \<^verbatim>\<open>(1, 3)\<close> the query
  of the child \<^verbatim>\<open>2\<close> raises \<^verbatim>\<open>TypeError\<close>.
\<close>

theorem local_independencies_iterates_variable:
  "local_independencies
     (snd (add_edge (snd (add_edge empty_model (StrNode ''a'') (StrNode ''bc'')))
             (StrNode ''a'') (StrNode ''d'')))
     (Many [StrNode ''bc''])
   = Inr [Some (Independencies (StrNode ''bc'') {StrNode ''bc'', StrNode ''d''}
                  (Some (StrNode ''a'')))]
   \<and> local_independencies
     (snd (add_edge (snd (add_edge empty_model (IntNode 1) (IntNode 2)))
             (IntNode 1) (IntNode 3)))
     (Many [IntNode 2])
   = Inl TypeError"
  by (simp add: eval_defs)

subsection \<open>C7: fit completes the structure\<close>

text \<open>
  Claim C7 says in its last part that \<^verbatim>\<open>fit\<close> fails with StructureViolation whenever
  the model already has a different parent. The guard is in \<^verbatim>\<open>add_edge\<close>, which \<^verbatim>\<open>fit\<close>
  calls once for every column other than the parent column. For a dataset whose only
  column is \<^verbatim>\<open>'p'\<close> and a model rooted at \<^verbatim>\<open>'q'\<close>, no edge is inserted, nothing is
  raised, and the estimator is called on the unchanged structure.
\<close>

theorem fit_single_column_other_parent:
  "parent_node (snd (add_edge empty_model (StrNode ''q'') (StrNode ''r''))) = Some (StrNode ''q'')
   \<and> StrNode ''q'' \<noteq> StrNode ''p''
   \<and> StrNode ''p'' \<in> set [StrNode ''p'']
   \<and> fit (snd (add_edge empty_model (StrNode ''q'') (StrNode ''r''))) [StrNode ''p''] (StrNode ''p'')
       = (Estimator [StrNode ''p''], snd (add_edge empty_model (StrNode ''q'') (StrNode ''r'')))"
  by (simp add: fit_def eval_defs)

text \<open>
  Claim C7, amended. For a dataset whose columns include \<open>p\<close>:
  \<^item> if the model has no parent or the parent \<open>p\<close>, \<^verbatim>\<open>fit(data, p)\<close> reaches the
    estimator with the dataset, and the structure then holds the former edges and the
    edge \<open>(p, c)\<close> for every column \<open>c\<close> other than \<open>p\<close>, each once when the former
    edges were distinct; the entries of \<open>children_nodes\<close> are the former ones and these
    columns;
  \<^item> if the model has a different parent \<open>q\<close> that Python treats as true, and the
    dataset has a column other than \<open>p\<close>, \<^verbatim>\<open>fit(data, p)\<close> raises StructureViolation and
    leaves the structure as it was.
\<close>

theorem fit_completes_structure:
  "(has_parent_node m \<and> p \<in> set columns \<and> (parent_node m = None \<or> parent_node m = Some p) \<longrightarrow>
      fst (fit m columns p) = Estimator columns
      \<and> set (edges (snd (fit m columns p)))
          = set (edges m) \<union> {(p, c) |c. c \<in> set columns \<and> c \<noteq> p}
      \<and> set (children_nodes (snd (fit m columns p)))
          = set (children_nodes m) \<union> {c \<in> set columns. c \<noteq> p}
      \<and> (distinct (edges m) \<longrightarrow> distinct (edges (snd (fit m columns p)))))
   \<and> (has_parent_node m \<and> p \<in> set columns \<and> parent_node m = Some q \<and> truthy q \<and> q \<noteq> p
        \<and> c \<in> set columns \<and> c \<noteq> p \<longrightarrow>
      fit m columns p = (Raises StructureViolation, m))"
proof -
  have a: "fst (fit m columns p) = Estimator columns
      \<and> set (edges (snd (fit m columns p)))
          = set (edges m) \<union> {(p, c) |c. c \<in> set columns \<and> c \<noteq> p}
      \<and> set (children_nodes (snd (fit m columns p)))
          = set (children_nodes m) \<union> {c \<in> set columns. c \<noteq> p}
      \<and> (distinct (edges m) \<longrightarrow> distinct (edges (snd (fit m columns p))))"
    if "has_parent_node m" "p \<in> set columns" "parent_node m = None \<or> parent_node m = Some p"
    using add_children_completes [OF that(1,3), of columns]
      fit_outcome_and_state [OF that(2), of m]
    by simp
  have b: "fit m columns p = (Raises StructureViolation, m)"
    if "has_parent_node m" "p \<in> set columns" "parent_node m = Some q" "truthy q" "q \<noteq> p"
      "c \<in> set columns" "c \<noteq> p"
    using add_children_rejected [OF that(1,3,4,5,6,7)] that(2) by (simp add: fit_def)
  show ?thesis using a b by blast
qed

text \<open>
  The amended claim for the columns \<^verbatim>\<open>A, B, C\<close> and the parent \<^verbatim>\<open>'A'\<close>: on the empty
  model, and on the model with the edge \<^verbatim>\<open>('q', 'r')\<close>.
\<close>

theorem fit_completes_structure_witness:
  "has_parent_node empty_model
   \<and> StrNode ''A'' \<in> set [StrNode ''A'', StrNode ''B'', StrNode ''C'']
   \<and> parent_node empty_model = None
   \<and> distinct (edges empty_model)
   \<and> fst (fit empty_model [StrNode ''A'', StrNode ''B'', StrNode ''C''] (StrNode ''A''))
       = Estimator [StrNode ''A'', StrNode ''B'', StrNode ''C'']
   \<and> set (edges (snd (fit empty_model [StrNode ''A'', StrNode ''B'', StrNode ''C''] (StrNode ''A''))))
       = {(StrNode ''A'', StrNode ''B''), (StrNode ''A'', StrNode ''C'')}
   \<and> distinct (edges (snd (fit empty_model [StrNode ''A'', StrNode ''B'', StrNode ''C'']
                               (StrNode ''A''))))
   \<and> has_parent_node (snd (add_edge empty_model (StrNode ''q'') (StrNode ''r'')))
   \<and> parent_node (snd (add_edge empty_model (StrNode ''q'') (StrNode ''r''))) = Some (StrNode ''q'')
   \<and> truthy (StrNode ''q'') \<and> StrNode ''q'' \<noteq> StrNode ''A''
   \<and> StrNode ''B'' \<in> set [StrNode ''A'', StrNode ''B'', StrNode ''C'']
   \<and> StrNode ''B'' \<noteq> StrNode ''A''
   \<and> fit (snd (add_edge empty_model (StrNode ''q'') (StrNode ''r'')))
          [StrNode ''A'', StrNode ''B'', StrNode ''C''] (StrNode ''A'')
       = (Raises StructureViolation, snd (add_edge empty_model (StrNode ''q'') (StrNode ''r'')))"
proof -
  let ?cols = "[StrNode ''A'', StrNode ''B'', StrNode ''C'']"
  let ?mq = "snd (add_edge empty_model (StrNode ''q'') (StrNode ''r''))"
  have h1: "has_parent_node empty_model \<and> StrNode ''A'' \<in> set ?cols
            \<and> (parent_node empty_model = None \<or> parent_node empty_model = Some (StrNode ''A''))"
    by (simp add: empty_model_def)
  have h2: "distinct (edges empty_model)" "parent_node empty_model = None"
    by (simp_all add: empty_model_def)
  have e: "set (edges empty_model) \<union> {(StrNode ''A'', c) |c. c \<in> set ?cols \<and> c \<noteq> StrNode ''A''}
           = {(StrNode ''A'', StrNode ''B''), (StrNode ''A'', StrNode ''C'')}"
    by (auto simp: empty_model_def)
  have h3: "has_parent_node ?mq \<and> StrNode ''A'' \<in> set ?cols
            \<and> parent_node ?mq = Some (StrNode ''q'') \<and> truthy (StrNode ''q'')
            \<and> StrNode ''q'' \<noteq> StrNode ''A'' \<and> StrNode ''B'' \<in> set ?cols
            \<and> StrNode ''B'' \<noteq> StrNode ''A''"
    by (simp add: eval_defs)
  have r1: "fst (fit empty_model ?cols (StrNode ''A'')) = Estimator ?cols
      \<and> set (edges (snd (fit empty_model ?cols (StrNode ''A''))))
          = set (edges empty_model)
            \<union> {(StrNode ''A'', c) |c. c \<in> set ?cols \<and> c \<noteq> StrNode ''A''}
      \<and> distinct (edges (snd (fit empty_model ?cols (StrNode ''A''))))"
    using h1 h2 fit_completes_structure [of empty_model "StrNode ''A''" ?cols] by blast
  have r2: "fit ?mq ?cols (StrNode ''A'') = (Raises StructureViolation, ?mq)"
    using h3 fit_completes_structure [of ?mq "StrNode ''A''" ?cols "StrNode ''q''" "StrNode ''B''"]
    by blast
  show ?thesis
    using h1 h2 h3 r1 r2 unfolding e by blast
qed

subsection \<open>C8: fit with a parent that is not a column\<close>

text \<open>
  Claim C8: when \<open>Z\<close> is not among the column names of the dataset, \<^verbatim>\<open>fit(data, Z)\<close>
  raises DataSchemaError and the structure after the call is the structure before it.
\<close>

theorem fit_missing_parent_column:
  "Z \<notin> set columns \<Longrightarrow> fit m columns Z = (Raises DataSchemaError, m)"
  by (simp add: fit_def)

text \<open>
  Claim C8 on the structure with the edge \<^verbatim>\<open>('A', 'B')\<close>, the columns \<^verbatim>\<open>A, B\<close> and the
  parent \<^verbatim>\<open>'Z'\<close>.
\<close>

theorem fit_missing_parent_column_witness:
  "StrNode ''Z'' \<notin> set [StrNode ''A'', StrNode ''B'']
   \<and> fit (snd (add_edge empty_model (StrNode ''A'') (StrNode ''B'')))
        [StrNode ''A'', StrNode ''B''] (StrNode ''Z'')
      = (Raises DataSchemaError,
         \<lparr>nodes = [StrNode ''A'', StrNode ''B''], edges = [(StrNode ''A'', StrNode ''B'')],
          has_parent_node = True, parent_node = Some (StrNode ''A''),
          children_nodes = [StrNode ''B'']\<rparr>)"
proof -
  have h: "StrNode ''Z'' \<notin> set [StrNode ''A'', StrNode ''B'']" by simp
  have e: "snd (add_edge empty_model (StrNode ''A'') (StrNode ''B'')) =
         \<lparr>nodes = [StrNode ''A'', StrNode ''B''], edges = [(StrNode ''A'', StrNode ''B'')],
          has_parent_node = True, parent_node = Some (StrNode ''A''),
          children_nodes = [StrNode ''B'']\<rparr>"
    by (simp add: eval_defs)
  show ?thesis
    using h fit_missing_parent_column
              [OF h, of "snd (add_edge empty_model (StrNode ''A'') (StrNode ''B''))"]
    by (simp only: e simp_thms)
qed

subsection \<open>C9: a start node that is observed\<close>

text \<open>
  Claim C9 says that, for a start node that is itself observed, the result contains
  the start node when the parent is observed too, and excludes it otherwise. With the
  parent observed the code returns \<^verbatim>\<open>set(start)\<close>: in the structure with the edge
  \<^verbatim>\<open>('a', 'bc')\<close>, the start \<^verbatim>\<open>'bc'\<close> and \<^verbatim>\<open>'a'\<close> and \<^verbatim>\<open>'bc'\<close> observed, the result is the
  set of \<^verbatim>\<open>'b'\<close> and \<^verbatim>\<open>'c'\<close>, which does not contain the start node.
\<close>

theorem active_trail_observed_start_absent:
  "active_trail_nodes (snd (add_edge empty_model (StrNode ''a'') (StrNode ''bc'')))
        (StrNode ''bc'') (Some [StrNode ''a'', StrNode ''bc''])
       = Inr {StrNode ''b'', StrNode ''c''}
   \<and> StrNode ''bc'' \<notin> {StrNode ''b'', StrNode ''c''}"
  by (simp add: active_trail_nodes_def eval_defs)

subsection \<open>C10: a single node that is not a string\<close>

text \<open>
  Claim C10: \<^verbatim>\<open>local_independencies\<close> wraps only a string argument into a sequence of
  one node. An argument that is one node but not a string is iterated: the loop runs
  over the elements that iterating the node yields, so a tuple node is handled as the
  sequence of its elements and an integer node raises \<^verbatim>\<open>TypeError\<close>.
\<close>

theorem local_independencies_wraps_strings_only:
  "local_independencies m (One (StrNode s)) = local_independencies m (Many [StrNode s])
   \<and> (\<not> isinstance_str x \<longrightarrow>
        local_independencies m (One x) =
          (case iter_node x of Inl e \<Rightarrow> Inl e | Inr vs \<Rightarrow> local_independencies m (Many vs)))
   \<and> local_independencies m (One (IntNode i)) = Inl TypeError
   \<and> local_independencies m (One (TupNode ns)) = local_independencies m (Many ns)"
  by (simp split: sum.splits)

text \<open>
  Claim C10 in the structure with the edge \<^verbatim>\<open>('a', ('b', 'c'))\<close>: the query of the
  single node \<^verbatim>\<open>('b', 'c')\<close> yields two entries, one for \<^verbatim>\<open>'b'\<close> and one for \<^verbatim>\<open>'c'\<close>.
\<close>

theorem local_independencies_wraps_strings_only_witness:
  "\<not> isinstance_str (TupNode [StrNode ''b'', StrNode ''c''])
   \<and> local_independencies
       (snd (add_edge empty_model (StrNode ''a'') (TupNode [StrNode ''b'', StrNode ''c''])))
       (One (TupNode [StrNode ''b'', StrNode ''c'']))
     = Inr [Some (Independencies (StrNode ''b'') {TupNode [StrNode ''b'', StrNode ''c'']}
                    (Some (StrNode ''a''))),
            Some (Independencies (StrNode ''c'') {TupNode [StrNode ''b'', StrNode ''c'']}
                    (Some (StrNode ''a'')))]"
proof -
  let ?t = "TupNode [StrNode ''b'', StrNode ''c'']"
  let ?m = "snd (add_edge empty_model (StrNode ''a'') ?t)"
  have h: "\<not> isinstance_str ?t" by simp
  have m: "?m = \<lparr>nodes = [StrNode ''a'', ?t], edges = [(StrNode ''a'', ?t)],
                 has_parent_node = True, parent_node = Some (StrNode ''a''),
                 children_nodes = [?t]\<rparr>"
    by (simp add: eval_defs)
  have r: "local_independencies ?m (Many [StrNode ''b'', StrNode ''c''])
           = Inr [Some (Independencies (StrNode ''b'') {?t} (Some (StrNode ''a''))),
                  Some (Independencies (StrNode ''c'') {?t} (Some (StrNode ''a'')))]"
    by (simp add: m)
  have "local_independencies ?m (One ?t)
        = (case iter_node ?t of Inl e \<Rightarrow> Inl e
           | Inr vs \<Rightarrow> local_independencies ?m (Many vs))"
    using h local_independencies_wraps_strings_only [of ?m "''b''" ?t 0 "[]"] by blast
  then show ?thesis using h r by simp
qed

end
